theory Spec2Isabelle
  imports Complex_Main
begin

section \<open>Floating-point arithmetic\<close>

text \<open>
  The function \<^verbatim>\<open>section\<close> of \<^verbatim>\<open>__init__.py\<close> cuts a mesh with the plane
  \<open>z = 0\<close> of a local frame. Its numbers are IEEE 754 binary floats: the components
  of a \<^verbatim>\<open>mathutils.Vector\<close> are single precision (24 significant bits), a Python
  \<^verbatim>\<open>float\<close> such as \<^verbatim>\<open>p0.z\<close>, \<^verbatim>\<open>d0\<close>, \<^verbatim>\<open>t\<close> or \<^verbatim>\<open>EPSILON\<close> is double
  precision (53 significant bits). A float is modelled by the real number it denotes,
  and an arithmetic operation by the exact result rounded to the precision of its
  result, to nearest with ties to even. The exponent is not bounded: infinities, NaN
  and the subnormal range are outside the model.

  Rounding a real to the nearest integer, ties to the even one.
\<close>

definition rne :: "real \<Rightarrow> int" where
  "rne y = (let n = \<lfloor>y\<rfloor>; r = y - of_int n in
            if r < 1 / 2 then n else if 1 / 2 < r then n + 1
            else if even n then n else n + 1)"

text \<open>The exponent \<open>e\<close> with \<open>2^e \<le> |x| < 2^(e+1)\<close>.\<close>

definition binade :: "real \<Rightarrow> int" where
  "binade x = \<lfloor>log 2 \<bar>x\<bar>\<rfloor>"

text \<open>Rounding to \<open>p\<close> significant bits: a multiple of \<open>2^(e - p + 1)\<close>.\<close>

definition round_to :: "nat \<Rightarrow> real \<Rightarrow> real" where
  "round_to p x =
     (if x = 0 then 0
      else let u = 2 powi (binade x - int p + 1) in of_int (rne (x / u)) * u)"

definition single :: "real \<Rightarrow> real" where
  "single = round_to 24"

definition double :: "real \<Rightarrow> real" where
  "double = round_to 53"

section \<open>Data model\<close>

text \<open>A \<^verbatim>\<open>mathutils.Vector\<close> with three components.\<close>

datatype Vector = Vector (vec_x: real) (vec_y: real) (vec_z: real)

text \<open>
  The three operations of line 142, \<^verbatim>\<open>p0 + (p1 - p0) * t\<close>. Each works component
  by component in single precision; the factor \<^verbatim>\<open>t\<close>, a double, is converted to
  single precision before it is multiplied.
\<close>

fun vec_add :: "Vector \<Rightarrow> Vector \<Rightarrow> Vector" where
  "vec_add (Vector a b c) (Vector a' b' c') =
     Vector (single (a + a')) (single (b + b')) (single (c + c'))"

fun vec_sub :: "Vector \<Rightarrow> Vector \<Rightarrow> Vector" where
  "vec_sub (Vector a b c) (Vector a' b' c') =
     Vector (single (a - a')) (single (b - b')) (single (c - c'))"

fun vec_mul :: "Vector \<Rightarrow> real \<Rightarrow> Vector" where
  "vec_mul (Vector a b c) t =
     Vector (single (a * single t)) (single (b * single t)) (single (c * single t))"



text \<open>\<^verbatim>\<open>tuple(v)\<close>: the coordinate tuple that keys the dictionary of line 166.\<close>

fun tuple :: "Vector \<Rightarrow> real \<times> real \<times> real" where
  "tuple (Vector a b c) = (a, b, c)"

text \<open>
  The matrix \<^verbatim>\<open>itM\<close> occurs only as \<^verbatim>\<open>itM @ v\<close>, so it is taken as the map on
  vectors it induces; the product itself is the host library's.
\<close>

type_synonym Matrix = "Vector \<Rightarrow> Vector"

text \<open>
  The mesh as the code reads it: \<^verbatim>\<open>m.vertices[i].co\<close>, \<^verbatim>\<open>ed.vertices[0]\<close>,
  \<^verbatim>\<open>ed.vertices[1]\<close>, \<^verbatim>\<open>ed.key\<close>, \<^verbatim>\<open>p.edge_keys\<close>. The attributes
  \<^verbatim>\<open>key\<close> and \<^verbatim>\<open>edge_keys\<close> are supplied by the host and are plain fields here:
  nothing below depends on how the host derives them.
\<close>

type_synonym edge_key = "nat \<times> nat"

record MeshVertex =
  co :: Vector

record MeshEdge =
  vertices :: "nat \<times> nat"
  key :: edge_key

record MeshPolygon =
  edge_keys :: "edge_key list"

record Mesh =
  vertices :: "MeshVertex list"
  edges :: "MeshEdge list"
  polygons :: "MeshPolygon list"

text \<open>
  The state of one call: the mesh the argument \<^verbatim>\<open>m\<close> refers to and the three
  local buffers \<^verbatim>\<open>verts\<close>, \<^verbatim>\<open>edges\<close>, \<^verbatim>\<open>ed_xsect\<close>. A tuple appended to
  \<^verbatim>\<open>edges\<close> always has two components, so it is a pair.
\<close>

record frame =
  mesh :: Mesh
  verts :: "Vector list"
  edges :: "(nat \<times> nat) list"
  ed_xsect :: "edge_key \<rightharpoonup> nat"

datatype error = IndexError | ZeroDivisionError

text \<open>What \<^verbatim>\<open>section\<close> returns: the new object, or \<^verbatim>\<open>False\<close>.\<close>

datatype 'o section_result = Section 'o | NoSection

section \<open>The edge classifier (lines 126 to 152)\<close>

text \<open>Line 62: the literal \<^verbatim>\<open>0.000001\<close> is the double nearest to \<open>10^-6\<close>.\<close>

definition EPSILON :: real where
  "EPSILON = double (1 / 1000000)"

text \<open>\<^verbatim>\<open>m.vertices[i].co\<close>; an index past the end raises.\<close>

definition vertex_co :: "Mesh \<Rightarrow> nat \<Rightarrow> error + Vector" where
  "vertex_co m i =
     (if i < length (Mesh.vertices m) then Inr (co (Mesh.vertices m ! i))
      else Inl IndexError)"

text \<open>Lines 143 to 144 (and 147 to 148, 151 to 152): store the index, append the point.\<close>

definition record_point :: "edge_key \<Rightarrow> Vector \<Rightarrow> frame \<Rightarrow> frame" where
  "record_point k pt f =
     f\<lparr>ed_xsect := (ed_xsect f)(k \<mapsto> length (verts f)), verts := verts f @ [pt]\<rparr>"

text \<open>
  Lines 136 to 152, once both endpoints have been transformed. The sum and the quotient
  of line 141 are operations on doubles; a zero divisor raises.
\<close>

definition classify_points :: "edge_key \<Rightarrow> Vector \<Rightarrow> Vector \<Rightarrow> frame \<Rightarrow> error + frame" where
  "classify_points k p0 p1 f =
     (let d0 = \<bar>vec_z p0\<bar>; d1 = \<bar>vec_z p1\<bar> in
      if (vec_z p0 > 0) \<noteq> (vec_z p1 > 0) then
        (if double (d0 + d1) = 0 then Inl ZeroDivisionError
         else let t = double (d0 / double (d0 + d1));
                  co = vec_add p0 (vec_mul (vec_sub p1 p0) t)
              in Inr (record_point k co f))
      else if d0 < EPSILON then Inr (record_point k p0 f)
      else if d1 < EPSILON then Inr (record_point k p1 f)
      else Inr f)"

text \<open>The body of the loop over \<^verbatim>\<open>m.edges\<close>, lines 131 to 152.\<close>

definition classify_edge :: "Matrix \<Rightarrow> MeshEdge \<Rightarrow> frame \<Rightarrow> error + frame" where
  "classify_edge itM ed f =
     (let id0 = fst (MeshEdge.vertices ed) in
      case vertex_co (mesh f) id0 of
        Inl e \<Rightarrow> Inl e
      | Inr c0 \<Rightarrow>
          (let p0 = itM c0; id1 = snd (MeshEdge.vertices ed) in
           case vertex_co (mesh f) id1 of
             Inl e \<Rightarrow> Inl e
           | Inr c1 \<Rightarrow> classify_points (key ed) p0 (itM c1) f))"

fun classify_edges :: "Matrix \<Rightarrow> MeshEdge list \<Rightarrow> frame \<Rightarrow> error + frame" where
  "classify_edges itM [] f = Inr f"
| "classify_edges itM (ed # eds) f =
     (case classify_edge itM ed f of
        Inl e \<Rightarrow> Inl e
      | Inr f' \<Rightarrow> classify_edges itM eds f')"

section \<open>The face stitcher (lines 154 to 168)\<close>

text \<open>
  A Python dictionary keeps its keys in the order of their first insertion, and an
  assignment to a key already present replaces the value in place.
\<close>

fun dict_set :: "'k \<Rightarrow> 'v \<Rightarrow> ('k \<times> 'v) list \<Rightarrow> ('k \<times> 'v) list" where
  "dict_set k v [] = [(k, v)]"
| "dict_set k v ((k', v') # d) =
     (if k' = k then (k, v) # d else (k', v') # dict_set k v d)"

text \<open>
  Line 166, \<^verbatim>\<open>{tuple(verts[id]): id for id in ps}\<close>, as the loop it abbreviates;
  \<^verbatim>\<open>verts[id]\<close> raises past the end of the list.
\<close>

fun build_unique ::
  "Vector list \<Rightarrow> nat list \<Rightarrow> ((real \<times> real \<times> real) \<times> nat) list
     \<Rightarrow> error + ((real \<times> real \<times> real) \<times> nat) list" where
  "build_unique vs [] u = Inr u"
| "build_unique vs (i # ids) u =
     (if i < length vs then build_unique vs ids (dict_set (tuple (vs ! i)) i u)
      else Inl IndexError)"

text \<open>Line 159: \<^verbatim>\<open>[ed_xsect[key] for key in p.edge_keys if key in ed_xsect]\<close>.\<close>

definition mapped_points :: "(edge_key \<rightharpoonup> nat) \<Rightarrow> edge_key list \<Rightarrow> nat list" where
  "mapped_points xs ks = [the (xs k). k \<leftarrow> ks, xs k \<noteq> None]"

text \<open>The body of the loop over \<^verbatim>\<open>m.polygons\<close>, lines 159 to 168.\<close>

definition stitch_polygon :: "MeshPolygon \<Rightarrow> frame \<Rightarrow> error + frame" where
  "stitch_polygon p f =
     (let ps = mapped_points (ed_xsect f) (edge_keys p); s = length ps in
      if s = 2 then Inr (f\<lparr>edges := edges f @ [(ps ! 0, ps ! 1)]\<rparr>)
      else if s > 2 then
        (case build_unique (verts f) ps [] of
           Inl e \<Rightarrow> Inl e
         | Inr unique \<Rightarrow>
             if length unique = 2
             then Inr (f\<lparr>edges := edges f @ [(snd (unique ! 0), snd (unique ! 1))]\<rparr>)
             else Inr f)
      else Inr f)"

fun stitch_polygons :: "MeshPolygon list \<Rightarrow> frame \<Rightarrow> error + frame" where
  "stitch_polygons [] f = Inr f"
| "stitch_polygons (p # ps) f =
     (case stitch_polygon p f of
        Inl e \<Rightarrow> Inl e
      | Inr f' \<Rightarrow> stitch_polygons ps f')"

section \<open>The whole function\<close>

text \<open>
  Lines 122 to 168. The frame at entry holds the mesh of the argument \<^verbatim>\<open>m\<close>; the
  three buffers hold whatever they held before and are assigned first.
\<close>

definition section_body :: "Matrix \<Rightarrow> frame \<Rightarrow> error + frame" where
  "section_body itM f =
     (let f0 = f\<lparr>verts := [], edges := [], ed_xsect := Map.empty\<rparr> in
      case classify_edges itM (Mesh.edges (mesh f0)) f0 of
        Inl e \<Rightarrow> Inl e
      | Inr f1 \<Rightarrow> stitch_polygons (polygons (mesh f1)) f1)"

text \<open>
  Lines 170 to 205. The calls into the host between lines 172 and 202 (a new mesh from
  \<^verbatim>\<open>verts\<close> and \<^verbatim>\<open>edges\<close>, a new object, remove doubles, fill, normals) are
  the parameter \<open>assemble\<close>; its value stands for the object \<^verbatim>\<open>o\<close> returned.
\<close>

definition section_fn ::
  "(Vector list \<Rightarrow> (nat \<times> nat) list \<Rightarrow> bool \<Rightarrow> 'o) \<Rightarrow> Matrix \<Rightarrow> bool \<Rightarrow> frame
     \<Rightarrow> error + 'o section_result" where
  "section_fn assemble itM FILL f =
     (case section_body itM f of
        Inl e \<Rightarrow> Inl e
      | Inr f' \<Rightarrow>
          if edges f' \<noteq> [] then Inr (Section (assemble (verts f') (edges f') FILL))
          else Inr NoSection)"

section \<open>Small meshes used to run the definitions\<close>

text \<open>Two vertices joined by one edge, no polygon.\<close>

definition segment_mesh :: "Vector \<Rightarrow> Vector \<Rightarrow> Mesh" where
  "segment_mesh a b =
     \<lparr>Mesh.vertices = [\<lparr>co = a\<rparr>, \<lparr>co = b\<rparr>],
      Mesh.edges = [\<lparr>MeshEdge.vertices = (0, 1), key = (0, 1)\<rparr>],
      polygons = []\<rparr>"

text \<open>The frame of a call on mesh \<open>m\<close> with empty buffers.\<close>

definition empty_frame :: "Mesh \<Rightarrow> frame" where
  "empty_frame m = \<lparr>mesh = m, verts = [], edges = [], ed_xsect = Map.empty\<rparr>"

text \<open>
  Two vertices joined by two edges that carry the same key: the edge \<open>(0, 1)\<close> and
  the edge \<open>(1, 0)\<close>.
\<close>

definition shared_key_mesh :: Mesh where
  "shared_key_mesh =
     \<lparr>Mesh.vertices = [\<lparr>co = Vector 0 0 1\<rparr>, \<lparr>co = Vector 2 0 (- 1)\<rparr>],
      Mesh.edges = [\<lparr>MeshEdge.vertices = (0, 1), key = (0, 1)\<rparr>,
                    \<lparr>MeshEdge.vertices = (1, 0), key = (0, 1)\<rparr>],
      polygons = []\<rparr>"

text \<open>One triangle: three vertices, its three edges, one polygon.\<close>

definition triangle_mesh :: "Vector \<Rightarrow> Vector \<Rightarrow> Vector \<Rightarrow> Mesh" where
  "triangle_mesh a b c =
     \<lparr>Mesh.vertices = [\<lparr>co = a\<rparr>, \<lparr>co = b\<rparr>, \<lparr>co = c\<rparr>],
      Mesh.edges = [\<lparr>MeshEdge.vertices = (0, 1), key = (0, 1)\<rparr>,
                    \<lparr>MeshEdge.vertices = (1, 2), key = (1, 2)\<rparr>,
                    \<lparr>MeshEdge.vertices = (2, 0), key = (0, 2)\<rparr>],
      polygons = [\<lparr>edge_keys = [(0, 1), (1, 2), (0, 2)]\<rparr>]\<rparr>"

text \<open>A triangle with one vertex above the plane and two below: two edges cross.\<close>

definition crossing_triangle :: Mesh where
  "crossing_triangle = triangle_mesh (Vector 0 0 1) (Vector 2 0 (- 1)) (Vector 0 2 (- 1))"

text \<open>
  A triangle with one vertex on the plane, one above and one below: all three edges
  yield a point, two of them the vertex on the plane.
\<close>

definition touching_triangle :: Mesh where
  "touching_triangle = triangle_mesh (Vector 0 0 0) (Vector 2 0 1) (Vector 0 2 (- 1))"

text \<open>The frames the classifier leaves for the two triangles, before any polygon is read.\<close>

definition crossing_classified :: frame where
  "crossing_classified =
     \<lparr>mesh = crossing_triangle, verts = [Vector 1 0 0, Vector 0 1 0], edges = [],
      ed_xsect = [(0, 1) \<mapsto> 0, (0, 2) \<mapsto> 1]\<rparr>"

definition touching_classified :: frame where
  "touching_classified =
     \<lparr>mesh = touching_triangle, verts = [Vector 0 0 0, Vector 1 1 0, Vector 0 0 0], edges = [],
      ed_xsect = [(0, 1) \<mapsto> 0, (1, 2) \<mapsto> 1, (0, 2) \<mapsto> 2]\<rparr>"

section \<open>Properties of rounding\<close>

lemma rne_of_int: "rne (of_int m) = m"
  by (simp add: rne_def)

lemma rne_floor: "\<lfloor>y\<rfloor> \<le> rne y" and rne_ceiling: "rne y \<le> \<lfloor>y\<rfloor> + 1"
  by (simp_all add: rne_def Let_def)

lemma rne_nonzero:
  assumes "1 \<le> \<bar>y\<bar>"
  shows "rne y \<noteq> 0"
proof (cases "0 \<le> y")
  case True
  with assms have "1 \<le> \<lfloor>y\<rfloor>" by simp
  with rne_floor [of y] show ?thesis by linarith
next
  case False
  with assms have y: "y \<le> - 1" by simp
  then have f: "\<lfloor>y\<rfloor> \<le> - 1" by (simp add: floor_le_iff)
  show ?thesis
  proof (cases "\<lfloor>y\<rfloor> = - 1")
    case True
    then have "- 1 \<le> y" by (metis of_int_floor_le of_int_minus of_int_1)
    with y have "y = of_int (- 1)" by simp
    then have "rne y = - 1" by (simp only: rne_of_int)
    then show ?thesis by simp
  next
    case False
    with f have "\<lfloor>y\<rfloor> \<le> - 2" by linarith
    with rne_ceiling [of y] show ?thesis by linarith
  qed
qed

lemma powr_powi: "(2::real) powr real_of_int e = 2 powi e"
  by (rule powr_real_of_int') simp_all

lemma binade_eq:
  assumes "2 powi e \<le> \<bar>x\<bar>" and "\<bar>x\<bar> < 2 powi (e + 1)"
  shows "binade x = e"
proof -
  have pos: "0 < \<bar>x\<bar>"
    using assms(1) by (smt (verit) zero_less_power_int)
  have "(2::real) powr real_of_int e \<le> \<bar>x\<bar> \<and> \<bar>x\<bar> < 2 powr (real_of_int e + 1)"
    using assms powr_powi [of e] powr_powi [of "e + 1"] by simp
  then show ?thesis
    unfolding binade_def using pos by (simp add: floor_log_eq_powr_iff)
qed

lemma binade_bounds:
  assumes "x \<noteq> 0"
  shows "2 powi binade x \<le> \<bar>x\<bar>" and "\<bar>x\<bar> < 2 powi (binade x + 1)"
proof -
  have pos: "0 < \<bar>x\<bar>" using assms by simp
  have "\<lfloor>log 2 \<bar>x\<bar>\<rfloor> = binade x" by (simp add: binade_def)
  then have "(2::real) powr real_of_int (binade x) \<le> \<bar>x\<bar>
           \<and> \<bar>x\<bar> < 2 powr (real_of_int (binade x) + 1)"
    using pos by (simp add: floor_log_eq_powr_iff)
  then show "2 powi binade x \<le> \<bar>x\<bar>" and "\<bar>x\<bar> < 2 powi (binade x + 1)"
    using powr_powi [of "binade x"] powr_powi [of "binade x + 1"] by simp_all
qed

lemma round_to_zero: "round_to p 0 = 0"
  by (simp add: round_to_def)

text \<open>How a rounding is computed once the exponent of the argument is known.\<close>

lemma round_to_in_binade:
  assumes "2 powi e \<le> \<bar>x\<bar>" and "\<bar>x\<bar> < 2 powi (e + 1)"
  shows "round_to p x
           = of_int (rne (x / 2 powi (e - int p + 1))) * 2 powi (e - int p + 1)"
proof -
  have "x \<noteq> 0" using assms(1) by (smt (verit) zero_less_power_int)
  moreover have "binade x = e" using assms by (rule binade_eq)
  ultimately show ?thesis by (simp add: round_to_def Let_def)
qed

text \<open>A number with at most \<open>p\<close> significant bits is not changed.\<close>

lemma round_to_exact:
  assumes x: "x = of_int m * 2 powi k" and m: "\<bar>m\<bar> < 2 ^ p"
  shows "round_to p x = x"
proof (cases "m = 0")
  case True
  then show ?thesis by (simp add: x round_to_def)
next
  case False
  then have nz: "x \<noteq> 0" by (simp add: x)
  let ?e = "binade x"
  have "2 powi ?e \<le> \<bar>x\<bar>" using nz by (rule binade_bounds)
  also have "\<bar>x\<bar> = of_int \<bar>m\<bar> * 2 powi k" by (simp add: x abs_mult)
  also have "\<dots> < 2 ^ p * 2 powi k"
  proof -
    have "real_of_int \<bar>m\<bar> < 2 ^ p" using m by (metis of_int_less_numeral_power_cancel_iff)
    then show ?thesis by (simp add: mult_strict_right_mono)
  qed
  also have "\<dots> = 2 powi (int p + k)" by (simp add: power_int_add)
  finally have lt: "(2::real) powi ?e < 2 powi (int p + k)" .
  have "?e < int p + k"
  proof (rule ccontr)
    assume "\<not> ?e < int p + k"
    then have "int p + k \<le> ?e" by simp
    then have "(2::real) powi (int p + k) \<le> 2 powi ?e"
      by (rule power_int_increasing) simp
    with lt show False by simp
  qed
  then have "0 \<le> k - (?e - int p + 1)" by simp
  then obtain d :: nat where d: "k - (?e - int p + 1) = int d"
    by (rule nonneg_int_cases)
  have "x / 2 powi (?e - int p + 1) = of_int m * 2 powi (k - (?e - int p + 1))"
    by (simp add: x power_int_diff)
  also have "\<dots> = of_int (m * 2 ^ d)" by (simp add: d)
  finally have q: "x / 2 powi (?e - int p + 1) = of_int (m * 2 ^ d)" .
  have "round_to p x = of_int (rne (x / 2 powi (?e - int p + 1))) * 2 powi (?e - int p + 1)"
    using nz by (simp add: round_to_def Let_def)
  also have "\<dots> = of_int (m * 2 ^ d) * 2 powi (?e - int p + 1)"
    by (simp only: q rne_of_int)
  also have "\<dots> = x"
    using q by (metis nonzero_divide_eq_eq power_int_not_zero zero_neq_numeral)
  finally show ?thesis .
qed

text \<open>Rounding never turns a number that is not zero into zero.\<close>

lemma round_to_nonzero:
  assumes "x \<noteq> 0" and "0 < p"
  shows "round_to p x \<noteq> 0"
proof -
  let ?u = "2 powi (binade x - int p + 1) :: real"
  have u: "0 < ?u" by simp
  have "2 powi (int p - 1) * ?u = (2::real) powi binade x"
    by (simp add: power_int_add [symmetric])
  also have "\<dots> \<le> \<bar>x\<bar>" using assms(1) by (rule binade_bounds)
  finally have "2 powi (int p - 1) \<le> \<bar>x\<bar> / ?u" using u by (simp add: pos_le_divide_eq)
  moreover have "(1::real) \<le> 2 powi (int p - 1)"
    using assms(2) by (simp add: one_le_power_int)
  ultimately have "1 \<le> \<bar>x\<bar> / ?u" by linarith
  moreover have "\<bar>x / ?u\<bar> = \<bar>x\<bar> / ?u" using u by simp
  ultimately have "1 \<le> \<bar>x / ?u\<bar>" by simp
  then have "rne (x / ?u) \<noteq> 0" by (rule rne_nonzero)
  then show ?thesis using assms(1) by (simp add: round_to_def Let_def)
qed

lemma double_nonzero: "x \<noteq> 0 \<Longrightarrow> double x \<noteq> 0"
  unfolding double_def by (rule round_to_nonzero) simp_all

lemma single_zero: "single 0 = 0" and double_zero: "double 0 = 0"
  by (simp_all add: single_def double_def round_to_zero)

lemma single_exact:
  "x = of_int m * 2 powi k \<Longrightarrow> \<bar>m\<bar> < 2 ^ 24 \<Longrightarrow> single x = x"
  unfolding single_def by (rule round_to_exact)

lemma double_exact:
  "x = of_int m * 2 powi k \<Longrightarrow> \<bar>m\<bar> < 2 ^ 53 \<Longrightarrow> double x = x"
  unfolding double_def by (rule round_to_exact)

text \<open>Rounding is symmetric about zero.\<close>

lemma rne_minus: "rne (- y) = - rne y"
proof (cases "y = of_int \<lfloor>y\<rfloor>")
  case True
  then have "rne y = \<lfloor>y\<rfloor>" by (metis rne_of_int)
  moreover from True have "- y = of_int (- \<lfloor>y\<rfloor>)" by simp
  then have "rne (- y) = - \<lfloor>y\<rfloor>" by (metis rne_of_int)
  ultimately show ?thesis by simp
next
  case False
  define n where "n = \<lfloor>y\<rfloor>"
  define r where "r = y - of_int n"
  have r: "0 < r" "r < 1" using False unfolding r_def n_def by linarith+
  have fm: "\<lfloor>- y\<rfloor> = - n - 1"
  proof (rule floor_unique)
    show "of_int (- n - 1) \<le> - y" using r unfolding r_def by simp
    show "- y < of_int (- n - 1) + 1" using r unfolding r_def by simp
  qed
  have rm: "- y - of_int (- n - 1) = 1 - r" by (simp add: r_def)
  have a: "rne y = (if r < 1 / 2 then n else if 1 / 2 < r then n + 1
                    else if even n then n else n + 1)"
    unfolding r_def n_def rne_def Let_def by (rule refl)
  have b: "rne (- y) = (if 1 - r < 1 / 2 then - n - 1 else if 1 / 2 < 1 - r then - n
                    else if even (- n - 1) then - n - 1 else - n)"
    unfolding rne_def Let_def fm rm by (simp only: diff_add_cancel)
  show ?thesis
  proof -
    consider "r < 1 / 2" | "1 / 2 < r" | "r = 1 / 2" by linarith
    then show ?thesis
    proof cases
      case 1
      then show ?thesis unfolding a b by simp
    next
      case 2
      then show ?thesis unfolding a b by simp
    next
      case 3
      then show ?thesis unfolding a b by simp
    qed
  qed
qed

lemma binade_minus: "binade (- x) = binade x"
  by (simp add: binade_def)

lemma round_to_minus: "round_to p (- x) = - round_to p x"
  by (simp add: round_to_def Let_def binade_minus rne_minus)

lemma single_minus: "single (- x) = - single x"
  by (simp add: single_def round_to_minus)

lemma double_minus: "double (- x) = - double x"
  by (simp add: double_def round_to_minus)

text \<open>Small integers are floats of both precisions.\<close>

lemma single_numeral: "numeral n < (2::int) ^ 24 \<Longrightarrow> single (numeral n) = numeral n"
  by (rule single_exact [where m = "numeral n" and k = 0]) simp_all

lemma double_numeral: "numeral n < (2::int) ^ 53 \<Longrightarrow> double (numeral n) = numeral n"
  by (rule double_exact [where m = "numeral n" and k = 0]) simp_all

lemma single_one: "single 1 = 1" and double_one: "double 1 = 1"
  by (rule single_exact [where m = 1 and k = 0], simp, simp)
     (rule double_exact [where m = 1 and k = 0], simp, simp)

text \<open>The value of \<^verbatim>\<open>EPSILON\<close>: a little below \<open>10^-6\<close>.\<close>

lemma EPSILON_value: "EPSILON = 4722366482869645 / 2 ^ 72"
proof -
  have "EPSILON = of_int (rne ((1 / 1000000) / 2 powi (- 20 - int 53 + 1)))
                    * 2 powi (- 20 - int 53 + 1)"
    unfolding EPSILON_def double_def by (rule round_to_in_binade) simp_all
  also have "\<dots> = 4722366482869645 / 2 ^ 72"
    by (simp add: rne_def Let_def)
  finally show ?thesis .
qed


text \<open>
  The float values used in the runs below. A number \<open>m * 2^k\<close> with \<open>|m| < 2^24\<close> is a
  single; the other roundings are computed from the exponent of their argument.
\<close>

lemma single_half: "single (1 / 2) = 1 / 2"
  by (rule single_exact [where m = 1 and k = "-1"]) simp_all

lemma double_half: "double (1 / 2) = 1 / 2"
  by (rule double_exact [where m = 1 and k = "-1"]) simp_all

lemma single_quarter: "single (1 / 4) = 1 / 4"
  by (rule single_exact [where m = 1 and k = "-2"]) simp_all

lemma double_quarter: "double (1 / 4) = 1 / 4"
  by (rule double_exact [where m = 1 and k = "-2"]) simp_all

lemma single_2_m19: "single (1 / 524288) = 1 / 524288"
  by (rule single_exact [where m = 1 and k = "- 19"]) simp_all

lemma single_2_m20: "single (1 / 1048576) = 1 / 1048576"
  by (rule single_exact [where m = 1 and k = "-20"]) simp_all

lemma double_2_m20: "double (1 / 1048576) = 1 / 1048576"
  by (rule double_exact [where m = 1 and k = "-20"]) simp_all

lemma single_2_m21: "single (1 / 2097152) = 1 / 2097152"
  by (rule single_exact [where m = 1 and k = "-21"]) simp_all

lemmas float_values = single_zero double_zero single_one double_one single_minus double_minus
  single_numeral double_numeral single_half double_half single_quarter double_quarter
  single_2_m19 single_2_m20 double_2_m20 single_2_m21













section \<open>Arithmetic of the crossing point\<close>



text \<open>The division of line 141 never divides by zero: the sign test excludes it.\<close>

lemma sign_test_denominator:
  fixes a b :: real
  assumes "(a > 0) \<noteq> (b > 0)"
  shows "double (\<bar>a\<bar> + \<bar>b\<bar>) \<noteq> 0"
proof (rule double_nonzero)
  show "\<bar>a\<bar> + \<bar>b\<bar> \<noteq> 0" using assms by auto
qed


section \<open>The classifier, edge by edge\<close>

text \<open>Once both vertex reads succeed, the loop body is the branch logic alone.\<close>

lemma classify_edge_points:
  assumes "vertex_co (mesh f) (fst (MeshEdge.vertices ed)) = Inr c0"
      and "vertex_co (mesh f) (snd (MeshEdge.vertices ed)) = Inr c1"
  shows "classify_edge itM ed f = classify_points (key ed) (itM c0) (itM c1) f"
  using assms by (simp add: classify_edge_def Let_def)

text \<open>The first branch, lines 140 to 144.\<close>

lemma classify_points_crossing:
  assumes "(vec_z p0 > 0) \<noteq> (vec_z p1 > 0)"
  shows "classify_points k p0 p1 f =
           Inr (record_point k
                  (vec_add p0 (vec_mul (vec_sub p1 p0)
                     (double (\<bar>vec_z p0\<bar> / double (\<bar>vec_z p0\<bar> + \<bar>vec_z p1\<bar>)))))
                  f)"
  using assms sign_test_denominator [OF assms]
  by (simp add: classify_points_def Let_def)







text \<open>
  Claim C3, as the specification states it, fails: two endpoints within \<open>EPSILON\<close> of
  the plane can still pass the sign test of line 140, which is tried first. With
  \<open>z = 2^-21\<close> and \<open>z = -2^-21\<close>, about \<open>4.8 * 10^-7\<close>, the first branch runs and the
  point appended is the interpolated \<open>(2, 0, 0)\<close>, not \<open>p0\<close>.
\<close>

theorem classify_edge_near_plane_counterexample:
  "\<bar>vec_z (Vector 0 0 (1 / 2097152))\<bar> < EPSILON
   \<and> \<bar>vec_z (Vector 4 0 (- (1 / 2097152)))\<bar> < EPSILON
   \<and> ((vec_z (Vector 0 0 (1 / 2097152)) > 0) \<noteq> (vec_z (Vector 4 0 (- (1 / 2097152))) > 0))
   \<and> classify_edge (\<lambda>v. v) \<lparr>MeshEdge.vertices = (0, 1), key = (0, 1)\<rparr>
        (empty_frame (segment_mesh (Vector 0 0 (1 / 2097152)) (Vector 4 0 (- (1 / 2097152)))))
      = Inr ((empty_frame (segment_mesh (Vector 0 0 (1 / 2097152)) (Vector 4 0 (- (1 / 2097152)))))
              \<lparr>ed_xsect := [(0, 1) \<mapsto> 0], verts := [Vector 2 0 0]\<rparr>)
   \<and> Vector 2 0 0 \<noteq> Vector 0 0 (1 / 2097152)"
  by (simp add: EPSILON_value classify_edge_def classify_points_def record_point_def vertex_co_def
      empty_frame_def segment_mesh_def Let_def float_values)

text \<open>
  Claim C3, amended. When both transformed endpoints lie within \<open>EPSILON\<close> of the
  plane the classifier appends exactly one point: \<open>p0\<close>, through the branch
  \<open>d0 < EPSILON\<close>, when the sign test is false (both \<open>z > 0\<close> or both \<open>z \<le> 0\<close>), and
  the interpolated point of the first branch when the sign test is true.
\<close>

theorem classify_edge_near_plane:
  assumes v0: "vertex_co (mesh f) (fst (MeshEdge.vertices ed)) = Inr c0"
      and v1: "vertex_co (mesh f) (snd (MeshEdge.vertices ed)) = Inr c1"
      and p0: "p0 = itM c0" and p1: "p1 = itM c1"
      and near0: "\<bar>vec_z p0\<bar> < EPSILON" and near1: "\<bar>vec_z p1\<bar> < EPSILON"
      and pt: "pt = (if (vec_z p0 > 0) \<noteq> (vec_z p1 > 0)
                    then vec_add p0 (vec_mul (vec_sub p1 p0)
                           (double (\<bar>vec_z p0\<bar> / double (\<bar>vec_z p0\<bar> + \<bar>vec_z p1\<bar>))))
                    else p0)"
  shows "classify_edge itM ed f =
           Inr (f\<lparr>ed_xsect := (ed_xsect f)(key ed \<mapsto> length (verts f)),
                  verts := verts f @ [pt]\<rparr>)"
proof -
  have eq: "classify_edge itM ed f = classify_points (key ed) p0 p1 f"
    unfolding p0 p1 using v0 v1 by (rule classify_edge_points)
  show ?thesis
  proof (cases "(vec_z p0 > 0) \<noteq> (vec_z p1 > 0)")
    case True
    from classify_points_crossing [OF True, of "key ed" f] True show ?thesis
      unfolding eq pt by (simp add: record_point_def)
  next
    case False
    with near0 show ?thesis
      unfolding eq pt by (simp add: classify_points_def record_point_def Let_def)
  qed
qed

text \<open>
  The coplanar edge from \<open>(1, 2, 0)\<close> to \<open>(3, 4, 0)\<close>: the sign test is false and the
  one point appended is \<open>p0 = (1, 2, 0)\<close>.
\<close>

theorem classify_edge_near_plane_witness:
  "classify_edge (\<lambda>v. v) \<lparr>MeshEdge.vertices = (0, 1), key = (0, 1)\<rparr>
       (empty_frame (segment_mesh (Vector 1 2 0) (Vector 3 4 0)))
     = Inr ((empty_frame (segment_mesh (Vector 1 2 0) (Vector 3 4 0)))
              \<lparr>ed_xsect := [(0, 1) \<mapsto> 0], verts := [Vector 1 2 0]\<rparr>)"
proof -
  let ?f = "empty_frame (segment_mesh (Vector 1 2 0) (Vector 3 4 0))"
  let ?ed = "\<lparr>MeshEdge.vertices = (0, 1), key = (0, 1)\<rparr>"
  have v0: "vertex_co (mesh ?f) (fst (MeshEdge.vertices ?ed)) = Inr (Vector 1 2 0)"
    by (simp add: vertex_co_def empty_frame_def segment_mesh_def)
  have v1: "vertex_co (mesh ?f) (snd (MeshEdge.vertices ?ed)) = Inr (Vector 3 4 0)"
    by (simp add: vertex_co_def empty_frame_def segment_mesh_def)
  have near0: "\<bar>vec_z (Vector 1 2 0)\<bar> < EPSILON" by (simp add: EPSILON_value)
  have near1: "\<bar>vec_z (Vector 3 4 0)\<bar> < EPSILON" by (simp add: EPSILON_value)
  show ?thesis
    using classify_edge_near_plane [OF v0 v1 refl refl near0 near1 refl]
    by (simp add: empty_frame_def)
qed

section \<open>The classifier over the edge list\<close>

text \<open>One pass of the loop body either leaves the frame alone or records one point.\<close>

lemma classify_points_cases:
  assumes "classify_points k p0 p1 f = Inr f'"
  shows "f' = f \<or> (\<exists>pt. f' = record_point k pt f)"
  using assms
  by (auto simp: classify_points_def Let_def split: if_splits)

lemma classify_edge_cases:
  assumes "classify_edge itM ed f = Inr f'"
  shows "f' = f \<or> (\<exists>pt. f' = record_point (key ed) pt f)"
  using assms
  by (auto simp: classify_edge_def Let_def split: sum.splits dest: classify_points_cases)

lemma classify_edge_other_key:
  assumes "classify_edge itM ed f = Inr f'" and "k \<noteq> key ed"
  shows "ed_xsect f' k = ed_xsect f k"
  using classify_edge_cases [OF assms(1)] assms(2)
  by (auto simp: record_point_def)

lemma classify_edge_length:
  assumes "classify_edge itM ed f = Inr f'"
  shows "length (verts f') \<le> Suc (length (verts f))"
  using classify_edge_cases [OF assms]
  by (auto simp: record_point_def)

lemma classify_edges_append:
  "classify_edges itM (xs @ ys) f =
     (case classify_edges itM xs f of Inl e \<Rightarrow> Inl e | Inr f1 \<Rightarrow> classify_edges itM ys f1)"
  by (induction xs arbitrary: f) (auto split: sum.splits)

lemma classify_edges_other_key:
  assumes "classify_edges itM eds f = Inr f'" and "k \<notin> key ` set eds"
  shows "ed_xsect f' k = ed_xsect f k"
  using assms
proof (induction eds arbitrary: f)
  case Nil
  then show ?case by simp
next
  case (Cons ed eds)
  from Cons.prems(1) obtain f1 where
    s1: "classify_edge itM ed f = Inr f1" and s2: "classify_edges itM eds f1 = Inr f'"
    by (auto split: sum.splits)
  from Cons.prems(2) have "k \<noteq> key ed" and "k \<notin> key ` set eds" by auto
  with Cons.IH [OF s2] classify_edge_other_key [OF s1] show ?case by simp
qed

lemma classify_edges_length:
  assumes "classify_edges itM eds f = Inr f'"
  shows "length (verts f') \<le> length (verts f) + length eds"
  using assms
proof (induction eds arbitrary: f)
  case Nil
  then show ?case by simp
next
  case (Cons ed eds)
  from Cons.prems obtain f1 where
    s1: "classify_edge itM ed f = Inr f1" and s2: "classify_edges itM eds f1 = Inr f'"
    by (auto split: sum.splits)
  from Cons.IH [OF s2] classify_edge_length [OF s1] show ?case by simp
qed

text \<open>The classifier never writes the mesh or the edge buffer, and only appends to \<^verbatim>\<open>verts\<close>.\<close>

lemma classify_edge_frame:
  assumes "classify_edge itM ed f = Inr f'"
  shows "mesh f' = mesh f \<and> edges f' = edges f \<and> (\<exists>rest. verts f' = verts f @ rest)"
  using classify_edge_cases [OF assms] by (auto simp: record_point_def)

lemma classify_edges_frame:
  assumes "classify_edges itM eds f = Inr f'"
  shows "mesh f' = mesh f \<and> edges f' = edges f \<and> (\<exists>rest. verts f' = verts f @ rest)"
  using assms
proof (induction eds arbitrary: f)
  case Nil
  then show ?case by simp
next
  case (Cons ed eds)
  from Cons.prems obtain f1 where
    s1: "classify_edge itM ed f = Inr f1" and s2: "classify_edges itM eds f1 = Inr f'"
    by (auto split: sum.splits)
  from classify_edge_frame [OF s1] Cons.IH [OF s2] show ?case by auto
qed

lemma classify_edge_in_range:
  assumes "classify_edge itM ed f = Inr f'"
      and "\<forall>v\<in>ran (ed_xsect f). v < length (verts f)"
  shows "\<forall>v\<in>ran (ed_xsect f'). v < length (verts f')"
proof -
  from classify_edge_cases [OF assms(1)]
  show ?thesis
  proof
    assume "f' = f" with assms(2) show ?thesis by simp
  next
    assume "\<exists>pt. f' = record_point (key ed) pt f"
    then obtain pt where f': "f' = record_point (key ed) pt f" ..
    show ?thesis
    proof
      fix v assume "v \<in> ran (ed_xsect f')"
      then obtain k where "ed_xsect f' k = Some v" unfolding ran_def by blast
      then have "v = length (verts f) \<or> ed_xsect f k = Some v"
        by (simp add: f' record_point_def split: if_splits)
      then have "v = length (verts f) \<or> v \<in> ran (ed_xsect f)"
        by (blast intro: ranI)
      then have "v \<le> length (verts f)"
        using assms(2) by (auto simp: less_imp_le)
      then show "v < length (verts f')" by (simp add: f' record_point_def)
    qed
  qed
qed

lemma classify_edges_in_range:
  assumes "classify_edges itM eds f = Inr f'"
      and "\<forall>v\<in>ran (ed_xsect f). v < length (verts f)"
  shows "\<forall>v\<in>ran (ed_xsect f'). v < length (verts f')"
  using assms
proof (induction eds arbitrary: f)
  case Nil
  then show ?case by simp
next
  case (Cons ed eds)
  from Cons.prems(1) obtain f1 where
    s1: "classify_edge itM ed f = Inr f1" and s2: "classify_edges itM eds f1 = Inr f'"
    by (auto split: sum.splits)
  from classify_edge_in_range [OF s1 Cons.prems(2)] Cons.IH [OF s2] show ?case by blast
qed

text \<open>
  With both endpoint indices in range the classifier returns: the only other raise, the
  division of line 141, cannot happen.
\<close>

lemma classify_points_total: "\<exists>f'. classify_points k p0 p1 f = Inr f'"
  using sign_test_denominator [of "vec_z p0" "vec_z p1"]
  by (simp add: classify_points_def Let_def)

lemma classify_edges_total:
  assumes "\<forall>ed\<in>set eds. fst (MeshEdge.vertices ed) < length (Mesh.vertices (mesh f))
                        \<and> snd (MeshEdge.vertices ed) < length (Mesh.vertices (mesh f))"
  shows "\<exists>f'. classify_edges itM eds f = Inr f'"
  using assms
proof (induction eds arbitrary: f)
  case Nil
  then show ?case by simp
next
  case (Cons ed eds)
  from Cons.prems have
    "vertex_co (mesh f) (fst (MeshEdge.vertices ed))
       = Inr (co (Mesh.vertices (mesh f) ! fst (MeshEdge.vertices ed)))"
    "vertex_co (mesh f) (snd (MeshEdge.vertices ed))
       = Inr (co (Mesh.vertices (mesh f) ! snd (MeshEdge.vertices ed)))"
    by (simp_all add: vertex_co_def)
  from classify_edge_points [OF this]
  obtain f1 where s1: "classify_edge itM ed f = Inr f1"
    using classify_points_total by metis
  from classify_edge_frame [OF s1] have "mesh f1 = mesh f" by simp
  with Cons.prems have "\<forall>ed\<in>set eds. fst (MeshEdge.vertices ed) < length (Mesh.vertices (mesh f1))
                        \<and> snd (MeshEdge.vertices ed) < length (Mesh.vertices (mesh f1))" by simp
  from Cons.IH [OF this] s1 show ?case by simp
qed

section \<open>The small meshes, run\<close>

lemma mapped_points_filter:
  "mapped_points xs ks = map (\<lambda>k. the (xs k)) (filter (\<lambda>k. xs k \<noteq> None) ks)"
  by (induction ks) (simp_all add: mapped_points_def)

lemma triangle_fields:
  "Mesh.vertices (triangle_mesh a b c) = [\<lparr>co = a\<rparr>, \<lparr>co = b\<rparr>, \<lparr>co = c\<rparr>]"
  "Mesh.edges (triangle_mesh a b c) = [\<lparr>MeshEdge.vertices = (0, 1), key = (0, 1)\<rparr>,
                    \<lparr>MeshEdge.vertices = (1, 2), key = (1, 2)\<rparr>,
                    \<lparr>MeshEdge.vertices = (2, 0), key = (0, 2)\<rparr>]"
  "polygons (triangle_mesh a b c) = [\<lparr>edge_keys = [(0, 1), (1, 2), (0, 2)]\<rparr>]"
  by (simp_all add: triangle_mesh_def)

lemma crossing_classify:
  "classify_edges (\<lambda>v. v) (Mesh.edges crossing_triangle)
     ((empty_frame crossing_triangle)\<lparr>verts := [], edges := [], ed_xsect := Map.empty\<rparr>)
   = Inr crossing_classified"
proof -
  have "classify_edges (\<lambda>v. v) (Mesh.edges (triangle_mesh (Vector 0 0 1) (Vector 2 0 (- 1)) (Vector 0 2 (- 1))))
     \<lparr>mesh = triangle_mesh (Vector 0 0 1) (Vector 2 0 (- 1)) (Vector 0 2 (- 1)), verts = [], edges = [], ed_xsect = Map.empty\<rparr>
   = Inr \<lparr>mesh = triangle_mesh (Vector 0 0 1) (Vector 2 0 (- 1)) (Vector 0 2 (- 1)), verts = [Vector 1 0 0, Vector 0 1 0], edges = [],
      ed_xsect = [(0, 1) \<mapsto> 0, (0, 2) \<mapsto> 1]\<rparr>"
    by (simp add: triangle_fields classify_edge_def classify_points_def record_point_def
        vertex_co_def Let_def EPSILON_value float_values)
  then show ?thesis
    by (simp add: crossing_classified_def crossing_triangle_def empty_frame_def)
qed

lemma crossing_stitch:
  "stitch_polygons (polygons crossing_triangle) crossing_classified
   = Inr (crossing_classified\<lparr>edges := [(0, 1)]\<rparr>)"
  by (simp add: crossing_triangle_def triangle_fields crossing_classified_def
      stitch_polygon_def mapped_points_filter Let_def)

lemma touching_classify:
  "classify_edges (\<lambda>v. v) (Mesh.edges touching_triangle)
     ((empty_frame touching_triangle)\<lparr>verts := [], edges := [], ed_xsect := Map.empty\<rparr>)
   = Inr touching_classified"
proof -
  have "classify_edges (\<lambda>v. v) (Mesh.edges (triangle_mesh (Vector 0 0 0) (Vector 2 0 1) (Vector 0 2 (- 1))))
     \<lparr>mesh = triangle_mesh (Vector 0 0 0) (Vector 2 0 1) (Vector 0 2 (- 1)), verts = [], edges = [], ed_xsect = Map.empty\<rparr>
   = Inr \<lparr>mesh = triangle_mesh (Vector 0 0 0) (Vector 2 0 1) (Vector 0 2 (- 1)), verts = [Vector 0 0 0, Vector 1 1 0, Vector 0 0 0], edges = [],
      ed_xsect = [(0, 1) \<mapsto> 0, (1, 2) \<mapsto> 1, (0, 2) \<mapsto> 2]\<rparr>"
    by (simp add: triangle_fields classify_edge_def classify_points_def record_point_def
        vertex_co_def Let_def EPSILON_value float_values numeral_2_eq_2)
  then show ?thesis
    by (simp add: touching_classified_def touching_triangle_def empty_frame_def)
qed

lemma touching_stitch:
  "stitch_polygons (polygons touching_triangle) touching_classified
   = Inr (touching_classified\<lparr>edges := [(2, 1)]\<rparr>)"
  by (simp add: touching_triangle_def triangle_fields touching_classified_def
      stitch_polygon_def mapped_points_filter Let_def)

lemma crossing_section_body:
  "section_body (\<lambda>v. v) (empty_frame crossing_triangle)
   = Inr (crossing_classified\<lparr>edges := [(0, 1)]\<rparr>)"
proof -
  have m: "mesh (empty_frame crossing_triangle) = crossing_triangle"
    "mesh crossing_classified = crossing_triangle"
    by (simp_all add: empty_frame_def crossing_classified_def)
  show ?thesis
    by (simp add: section_body_def Let_def m crossing_classify crossing_stitch)
qed

lemma touching_section_body:
  "section_body (\<lambda>v. v) (empty_frame touching_triangle)
   = Inr (touching_classified\<lparr>edges := [(2, 1)]\<rparr>)"
proof -
  have m: "mesh (empty_frame touching_triangle) = touching_triangle"
    "mesh touching_classified = touching_triangle"
    by (simp_all add: empty_frame_def touching_classified_def)
  show ?thesis
    by (simp add: section_body_def Let_def m touching_classify touching_stitch)
qed

lemma segment_section_body:
  "section_body (\<lambda>v. v) (empty_frame (segment_mesh (Vector 0 0 1) (Vector 2 0 (- 3))))
   = Inr \<lparr>mesh = segment_mesh (Vector 0 0 1) (Vector 2 0 (- 3)),
          verts = [Vector (1 / 2) 0 0], edges = [], ed_xsect = [(0, 1) \<mapsto> 0]\<rparr>"
proof -
  have f: "Mesh.vertices (segment_mesh a b) = [\<lparr>co = a\<rparr>, \<lparr>co = b\<rparr>]"
    "Mesh.edges (segment_mesh a b) = [\<lparr>MeshEdge.vertices = (0, 1), key = (0, 1)\<rparr>]"
    "polygons (segment_mesh a b) = []" for a b
    by (simp_all add: segment_mesh_def)
  show ?thesis
    by (simp add: section_body_def Let_def empty_frame_def f classify_edge_def
        classify_points_def record_point_def vertex_co_def float_values)
qed

section \<open>One entry for each edge key\<close>

text \<open>
  Claim C4, as the specification states it, fails on an edge list in which two edges
  carry the same key: line 143 assigns \<^verbatim>\<open>ed_xsect[ed.key]\<close> without looking, so the
  second edge replaces the index the first one stored, and the point of the first edge
  stays in \<^verbatim>\<open>verts\<close> with no key. After the first edge of \<open>shared_key_mesh\<close> the key
  \<open>(0, 1)\<close> maps to \<open>0\<close>; after both it maps to \<open>1\<close>.
\<close>

theorem classify_edges_overwrite_counterexample:
  "map key (Mesh.edges shared_key_mesh) = [(0, 1), (0, 1)]
   \<and> classify_edges (\<lambda>v. v) (take 1 (Mesh.edges shared_key_mesh)) (empty_frame shared_key_mesh)
       = Inr \<lparr>mesh = shared_key_mesh, verts = [Vector 1 0 0], edges = [],
              ed_xsect = [(0, 1) \<mapsto> 0]\<rparr>
   \<and> classify_edges (\<lambda>v. v) (Mesh.edges shared_key_mesh) (empty_frame shared_key_mesh)
       = Inr \<lparr>mesh = shared_key_mesh, verts = [Vector 1 0 0, Vector 1 0 0], edges = [],
              ed_xsect = [(0, 1) \<mapsto> 1]\<rparr>
   \<and> [(0, 1) \<mapsto> 0::nat] ((0, 1)::edge_key) \<noteq> [(0, 1) \<mapsto> 1] (0, 1)"
proof -
  have vs: "Mesh.vertices shared_key_mesh = [\<lparr>co = Vector 0 0 1\<rparr>, \<lparr>co = Vector 2 0 (- 1)\<rparr>]"
    and es: "Mesh.edges shared_key_mesh = [\<lparr>MeshEdge.vertices = (0, 1), key = (0, 1)\<rparr>,
                    \<lparr>MeshEdge.vertices = (1, 0), key = (0, 1)\<rparr>]"
    by (simp_all add: shared_key_mesh_def)
  show ?thesis
    by (simp add: es vs classify_edge_def classify_points_def record_point_def vertex_co_def
        empty_frame_def Let_def float_values)
qed

text \<open>
  Claim C4, amended. For every edge list, each processed edge appends at most one
  vertex. When the keys of the edge list are pairwise distinct, the entry of each edge's
  key is written at most once, by that edge's own pass through the loop body (no earlier
  edge touches it, and the value it has after that pass is the value it has at the end),
  and the vertices present after that pass stay where they are.
\<close>

theorem classify_edges_stored_once:
  assumes run: "classify_edges itM eds f = Inr f'"
  shows "length (verts f') \<le> length (verts f) + length eds
       \<and> (distinct (map key eds) \<longrightarrow>
           (\<forall>i < length eds. \<exists>f1 f2.
              classify_edges itM (take i eds) f = Inr f1
            \<and> classify_edge itM (eds ! i) f1 = Inr f2
            \<and> (f2 = f1 \<or> (\<exists>pt. f2 = record_point (key (eds ! i)) pt f1))
            \<and> ed_xsect f1 (key (eds ! i)) = ed_xsect f (key (eds ! i))
            \<and> ed_xsect f' (key (eds ! i)) = ed_xsect f2 (key (eds ! i))
            \<and> (\<exists>rest. verts f' = verts f2 @ rest)))"
proof (intro conjI impI allI)
  show "length (verts f') \<le> length (verts f) + length eds"
    using run by (rule classify_edges_length)
next
  fix i
  assume dist: "distinct (map key eds)" and i: "i < length eds"
  let ?pre = "take i eds" and ?ed = "eds ! i" and ?post = "drop (Suc i) eds"
  have split: "eds = ?pre @ ?ed # ?post"
    using i by (rule id_take_nth_drop)
  from dist have "distinct (map key (?pre @ ?ed # ?post))"
    using split by simp
  then have pre: "key ?ed \<notin> key ` set ?pre" and post: "key ?ed \<notin> key ` set ?post"
    by auto
  from run have "classify_edges itM (?pre @ ?ed # ?post) f = Inr f'"
    using split by simp
  then obtain f1 f2 where
    s1: "classify_edges itM ?pre f = Inr f1" and
    s2: "classify_edge itM ?ed f1 = Inr f2" and
    s3: "classify_edges itM ?post f2 = Inr f'"
    by (auto simp: classify_edges_append split: sum.splits)
  have "f2 = f1 \<or> (\<exists>pt. f2 = record_point (key ?ed) pt f1)"
    using s2 by (rule classify_edge_cases)
  moreover have "ed_xsect f1 (key ?ed) = ed_xsect f (key ?ed)"
    using s1 pre by (rule classify_edges_other_key)
  moreover have "ed_xsect f' (key ?ed) = ed_xsect f2 (key ?ed)"
    using s3 post by (rule classify_edges_other_key)
  moreover have "\<exists>rest. verts f' = verts f2 @ rest"
    using classify_edges_frame [OF s3] by simp
  ultimately show "\<exists>f1 f2.
            classify_edges itM (take i eds) f = Inr f1
          \<and> classify_edge itM (eds ! i) f1 = Inr f2
          \<and> (f2 = f1 \<or> (\<exists>pt. f2 = record_point (key (eds ! i)) pt f1))
          \<and> ed_xsect f1 (key (eds ! i)) = ed_xsect f (key (eds ! i))
          \<and> ed_xsect f' (key (eds ! i)) = ed_xsect f2 (key (eds ! i))
          \<and> (\<exists>rest. verts f' = verts f2 @ rest)"
    using s1 s2 by blast
qed

text \<open>
  The three edges of \<open>crossing_triangle\<close> have distinct keys. Three edges give two
  vertices, and the entry of the third edge's key \<open>(0, 2)\<close> is the one its own pass
  stored.
\<close>

theorem classify_edges_stored_once_witness:
  "classify_edges (\<lambda>v. v) (Mesh.edges crossing_triangle) (empty_frame crossing_triangle)
     = Inr crossing_classified
   \<and> distinct (map key (Mesh.edges crossing_triangle))
   \<and> length (verts crossing_classified)
       \<le> length (verts (empty_frame crossing_triangle)) + length (Mesh.edges crossing_triangle)
   \<and> (\<exists>f1 f2.
        classify_edges (\<lambda>v. v) (take 2 (Mesh.edges crossing_triangle))
          (empty_frame crossing_triangle) = Inr f1
      \<and> classify_edge (\<lambda>v. v) (Mesh.edges crossing_triangle ! 2) f1 = Inr f2
      \<and> ed_xsect crossing_classified (key (Mesh.edges crossing_triangle ! 2))
          = ed_xsect f2 (key (Mesh.edges crossing_triangle ! 2)))"
proof -
  have run: "classify_edges (\<lambda>v. v) (Mesh.edges crossing_triangle)
               (empty_frame crossing_triangle) = Inr crossing_classified"
    using crossing_classify by (simp add: empty_frame_def)
  have dist: "distinct (map key (Mesh.edges crossing_triangle))"
    by (simp add: crossing_triangle_def triangle_fields)
  have i: "2 < length (Mesh.edges crossing_triangle)"
    by (simp add: crossing_triangle_def triangle_fields)
  from classify_edges_stored_once [OF run]
  have len: "length (verts crossing_classified)
       \<le> length (verts (empty_frame crossing_triangle)) + length (Mesh.edges crossing_triangle)"
    by (rule conjunct1)
  from classify_edges_stored_once [OF run] dist i
  obtain f1 f2 where
    "classify_edges (\<lambda>v. v) (take 2 (Mesh.edges crossing_triangle))
          (empty_frame crossing_triangle) = Inr f1"
    "classify_edge (\<lambda>v. v) (Mesh.edges crossing_triangle ! 2) f1 = Inr f2"
    "ed_xsect crossing_classified (key (Mesh.edges crossing_triangle ! 2))
          = ed_xsect f2 (key (Mesh.edges crossing_triangle ! 2))"
    by blast
  with run dist len show ?thesis by blast
qed

section \<open>The dictionary of line 166\<close>

lemma dict_set_map_fst:
  "map fst (dict_set k v d) = (if k \<in> fst ` set d then map fst d else map fst d @ [k])"
proof (induction d)
  case Nil
  then show ?case by simp
next
  case (Cons e d)
  obtain k' v' where e: "e = (k', v')" by (cases e)
  show ?case
  proof (cases "k' = k")
    case True
    then show ?thesis by (simp add: e)
  next
    case False
    then show ?thesis using Cons.IH by (simp add: e)
  qed
qed

lemma dict_set_keys: "fst ` set (dict_set k v d) = insert k (fst ` set d)"
proof -
  have "set (map fst (dict_set k v d)) = insert k (set (map fst d))"
    unfolding dict_set_map_fst by auto
  then show ?thesis by simp
qed

lemma dict_set_distinct:
  "distinct (map fst d) \<Longrightarrow> distinct (map fst (dict_set k v d))"
proof (induction d)
  case Nil
  then show ?case by simp
next
  case (Cons e d)
  obtain k' v' where e: "e = (k', v')" by (cases e)
  show ?case
  proof (cases "k' = k")
    case True
    with Cons.prems e show ?thesis by simp
  next
    case False
    from Cons.prems e have "k' \<notin> fst ` set d" and "distinct (map fst d)" by auto
    with False Cons.IH e show ?thesis by (simp add: dict_set_keys)
  qed
qed

lemma dict_set_entries:
  "e \<in> set (dict_set k v d) \<Longrightarrow> e = (k, v) \<or> e \<in> set d"
  by (induction d) (auto split: if_splits)

lemma build_unique_ok:
  assumes "\<forall>i\<in>set ids. i < length vs"
  shows "\<exists>u'. build_unique vs ids u = Inr u'
          \<and> (distinct (map fst u) \<longrightarrow> distinct (map fst u'))
          \<and> fst ` set u' = fst ` set u \<union> (\<lambda>i. tuple (vs ! i)) ` set ids
          \<and> (\<forall>e\<in>set u'. e \<in> set u \<or> (snd e \<in> set ids \<and> fst e = tuple (vs ! snd e)))"
  using assms
proof (induction ids arbitrary: u)
  case Nil
  then show ?case by simp
next
  case (Cons i ids)
  let ?u1 = "dict_set (tuple (vs ! i)) i u"
  from Cons.prems have i: "i < length vs" and rest: "\<forall>j\<in>set ids. j < length vs" by auto
  from Cons.IH [OF rest, of ?u1] obtain u' where
    run: "build_unique vs ids ?u1 = Inr u'" and
    dist: "distinct (map fst ?u1) \<longrightarrow> distinct (map fst u')" and
    keys: "fst ` set u' = fst ` set ?u1 \<union> (\<lambda>i. tuple (vs ! i)) ` set ids" and
    ents: "\<forall>e\<in>set u'. e \<in> set ?u1 \<or> (snd e \<in> set ids \<and> fst e = tuple (vs ! snd e))"
    by blast
  have "build_unique vs (i # ids) u = Inr u'" using i run by simp
  moreover have "distinct (map fst u) \<longrightarrow> distinct (map fst u')"
    using dist by (simp add: dict_set_distinct)
  moreover have "fst ` set u' = fst ` set u \<union> (\<lambda>i. tuple (vs ! i)) ` set (i # ids)"
    using keys by (auto simp: dict_set_keys)
  moreover have "\<forall>e\<in>set u'. e \<in> set u \<or> (snd e \<in> set (i # ids) \<and> fst e = tuple (vs ! snd e))"
  proof
    fix e assume "e \<in> set u'"
    with ents have "e \<in> set ?u1 \<or> (snd e \<in> set ids \<and> fst e = tuple (vs ! snd e))" by blast
    then show "e \<in> set u \<or> (snd e \<in> set (i # ids) \<and> fst e = tuple (vs ! snd e))"
      using dict_set_entries [of e "tuple (vs ! i)" i u] by auto
  qed
  ultimately show ?case by blast
qed

lemma build_unique_fresh:
  assumes "\<forall>i\<in>set ids. i < length vs"
  shows "\<exists>u'. build_unique vs ids [] = Inr u'
          \<and> distinct (map fst u')
          \<and> length u' = card ((\<lambda>i. tuple (vs ! i)) ` set ids)
          \<and> (\<forall>e\<in>set u'. snd e \<in> set ids \<and> fst e = tuple (vs ! snd e))"
proof -
  from build_unique_ok [OF assms, of "[]"] obtain u' where
    run: "build_unique vs ids [] = Inr u'" and
    dist: "distinct (map fst u')" and
    keys: "fst ` set u' = (\<lambda>i. tuple (vs ! i)) ` set ids" and
    ents: "\<forall>e\<in>set u'. snd e \<in> set ids \<and> fst e = tuple (vs ! snd e)"
    by auto
  have "length u' = length (map fst u')" by simp
  also have "\<dots> = card (set (map fst u'))" using dist by (rule distinct_card [symmetric])
  also have "\<dots> = card ((\<lambda>i. tuple (vs ! i)) ` set ids)" using keys by simp
  finally have "length u' = card ((\<lambda>i. tuple (vs ! i)) ` set ids)" .
  with run dist ents show ?thesis by blast
qed

lemma mapped_points_ran: "set (mapped_points xs ks) \<subseteq> ran xs"
  by (fastforce simp: mapped_points_filter ran_def)

section \<open>The stitcher, polygon by polygon\<close>

text \<open>
  Claim C5. When exactly two entries of a polygon's edge-key sequence are keys of the
  mapping, \<open>k1\<close> before \<open>k2\<close>, the stitcher appends exactly one edge, from the index
  stored under \<open>k1\<close> to the index stored under \<open>k2\<close>.
\<close>

theorem stitch_polygon_two:
  assumes present: "filter (\<lambda>k. ed_xsect f k \<noteq> None) (edge_keys p) = [k1, k2]"
      and a: "ed_xsect f k1 = Some a" and b: "ed_xsect f k2 = Some b"
  shows "stitch_polygon p f = Inr (f\<lparr>edges := edges f @ [(a, b)]\<rparr>)"
proof -
  have "mapped_points (ed_xsect f) (edge_keys p) = [a, b]"
    using present a b by (simp add: mapped_points_filter)
  then show ?thesis by (simp add: stitch_polygon_def Let_def)
qed

text \<open>
  The polygon of \<open>crossing_triangle\<close>: of its keys \<open>(0, 1)\<close>, \<open>(1, 2)\<close>, \<open>(0, 2)\<close> the
  first and the last are mapped, to \<open>0\<close> and \<open>1\<close>.
\<close>

theorem stitch_polygon_two_witness:
  "stitch_polygon \<lparr>edge_keys = [(0, 1), (1, 2), (0, 2)]\<rparr> crossing_classified
     = Inr (crossing_classified\<lparr>edges := edges crossing_classified @ [(0, 1)]\<rparr>)"
proof -
  have present: "filter (\<lambda>k. ed_xsect crossing_classified k \<noteq> None)
                   (edge_keys \<lparr>edge_keys = [(0, 1), (1, 2), (0, 2)]\<rparr>) = [(0, 1), (0, 2)]"
    by (simp add: crossing_classified_def)
  have a: "ed_xsect crossing_classified (0, 1) = Some 0"
    by (simp add: crossing_classified_def)
  have b: "ed_xsect crossing_classified (0, 2) = Some 1"
    by (simp add: crossing_classified_def)
  show ?thesis
    by (rule stitch_polygon_two [OF present a b])
qed

lemma stitch_polygon_unique_cases:
  assumes ps: "ps = mapped_points (ed_xsect f) (edge_keys p)"
      and coords: "coords = (\<lambda>i. tuple (verts f ! i)) ` set ps"
      and inv: "\<forall>i\<in>set ps. i < length (verts f)"
  shows "(length ps < 2 \<longrightarrow> stitch_polygon p f = Inr f)
       \<and> (length ps > 2 \<and> card coords \<noteq> 2 \<longrightarrow> stitch_polygon p f = Inr f)
       \<and> (length ps > 2 \<and> card coords = 2 \<longrightarrow>
            (\<exists>a b. stitch_polygon p f = Inr (f\<lparr>edges := edges f @ [(a, b)]\<rparr>)
                  \<and> a \<in> set ps \<and> b \<in> set ps
                  \<and> coords = {tuple (verts f ! a), tuple (verts f ! b)}
                  \<and> tuple (verts f ! a) \<noteq> tuple (verts f ! b)))"
proof (intro conjI impI)
  assume "length ps < 2"
  then show "stitch_polygon p f = Inr f"
    by (simp add: stitch_polygon_def Let_def ps [symmetric])
next
  from build_unique_fresh [OF inv] obtain u where
    run: "build_unique (verts f) ps [] = Inr u" and
    dist: "distinct (map fst u)" and
    len: "length u = card coords" and
    ents: "\<forall>e\<in>set u. snd e \<in> set ps \<and> fst e = tuple (verts f ! snd e)"
    unfolding coords by blast
  {
    assume "length ps > 2 \<and> card coords \<noteq> 2"
    then show "stitch_polygon p f = Inr f"
      using run len by (simp add: stitch_polygon_def Let_def ps [symmetric])
  next
    assume h: "length ps > 2 \<and> card coords = 2"
    with len have "length u = 2" by simp
    then obtain e0 e1 where u: "u = [e0, e1]"
      by (cases u; cases "tl u") auto
    from dist u have ne: "fst e0 \<noteq> fst e1" by simp
    from ents u have m0: "snd e0 \<in> set ps" and c0: "fst e0 = tuple (verts f ! snd e0)"
      and m1: "snd e1 \<in> set ps" and c1: "fst e1 = tuple (verts f ! snd e1)" by auto
    have run': "stitch_polygon p f = Inr (f\<lparr>edges := edges f @ [(snd e0, snd e1)]\<rparr>)"
      using h run u by (simp add: stitch_polygon_def Let_def ps [symmetric])
    have sub: "{tuple (verts f ! snd e0), tuple (verts f ! snd e1)} \<subseteq> coords"
      using m0 m1 unfolding coords by auto
    have fin: "finite coords" unfolding coords by simp
    have "card {tuple (verts f ! snd e0), tuple (verts f ! snd e1)} = 2"
      using ne c0 c1 by simp
    with h have "card {tuple (verts f ! snd e0), tuple (verts f ! snd e1)} = card coords" by simp
    with sub fin have "{tuple (verts f ! snd e0), tuple (verts f ! snd e1)} = coords"
      by (simp add: card_subset_eq)
    with run' m0 m1 ne c0 c1
    show "\<exists>a b. stitch_polygon p f = Inr (f\<lparr>edges := edges f @ [(a, b)]\<rparr>)
                  \<and> a \<in> set ps \<and> b \<in> set ps
                  \<and> coords = {tuple (verts f ! a), tuple (verts f ! b)}
                  \<and> tuple (verts f ! a) \<noteq> tuple (verts f ! b)"
      by metis
  }
qed

text \<open>
  Claim C6. Let \<open>ps\<close> be the mapped indices of a polygon and \<open>coords\<close> the set of
  coordinate tuples of the vertices they name. With fewer than two entries nothing is
  appended. With more than two entries, one edge is appended when \<open>coords\<close> has exactly
  two elements, joining one index of \<open>ps\<close> for each of the two coordinates, and nothing
  is appended otherwise. The indices of \<open>ps\<close> are in range whenever the mapping comes
  from the classifier.
\<close>

theorem stitch_polygon_dedup:
  assumes ps: "ps = mapped_points (ed_xsect f) (edge_keys p)"
      and coords: "coords = (\<lambda>i. tuple (verts f ! i)) ` set ps"
      and inv: "\<forall>i\<in>set ps. i < length (verts f)"
  shows "(length ps < 2 \<longrightarrow> stitch_polygon p f = Inr f)
       \<and> (length ps > 2 \<and> card coords \<noteq> 2 \<longrightarrow> stitch_polygon p f = Inr f)
       \<and> (length ps > 2 \<and> card coords = 2 \<longrightarrow>
            (\<exists>a b. stitch_polygon p f = Inr (f\<lparr>edges := edges f @ [(a, b)]\<rparr>)
                  \<and> a \<in> set ps \<and> b \<in> set ps
                  \<and> coords = {tuple (verts f ! a), tuple (verts f ! b)}
                  \<and> tuple (verts f ! a) \<noteq> tuple (verts f ! b)))"
  using ps coords inv by (rule stitch_polygon_unique_cases)

text \<open>
  The polygon of \<open>touching_triangle\<close>: all three keys are mapped, \<open>ps = [0, 1, 2]\<close>, and
  the vertices \<open>0\<close> and \<open>2\<close> are the same point \<open>(0, 0, 0)\<close>, so two coordinates remain.
\<close>

theorem stitch_polygon_dedup_witness:
  "\<exists>a b. stitch_polygon \<lparr>edge_keys = [(0, 1), (1, 2), (0, 2)]\<rparr> touching_classified
            = Inr (touching_classified\<lparr>edges := edges touching_classified @ [(a, b)]\<rparr>)
         \<and> a \<in> set [0, 1, 2] \<and> b \<in> set [0, 1, 2]
         \<and> {(0, 0, 0), (1, 1, 0)}
             = {tuple (verts touching_classified ! a), tuple (verts touching_classified ! b)}
         \<and> tuple (verts touching_classified ! a) \<noteq> tuple (verts touching_classified ! b)"
proof -
  let ?p = "\<lparr>edge_keys = [(0, 1), (1, 2), (0, 2)]\<rparr>"
  have ps: "[0, 1, 2] = mapped_points (ed_xsect touching_classified) (edge_keys ?p)"
    by (simp add: mapped_points_filter touching_classified_def)
  have coords: "{(0, 0, 0), (1, 1, 0)}
                  = (\<lambda>i. tuple (verts touching_classified ! i)) ` set [0, 1, 2]"
    by (auto simp: touching_classified_def)
  have inv: "\<forall>i\<in>set [0, 1, 2]. i < length (verts touching_classified)"
    by (simp add: touching_classified_def)
  have many: "length [0::nat, 1, 2] > 2 \<and> card {(0::real, 0::real, 0::real), (1, 1, 0)} = 2"
    by simp
  from stitch_polygon_dedup [OF ps coords inv] many
  show ?thesis by blast
qed

section \<open>The stitcher over the polygon list\<close>

text \<open>
  With every stored index in range the stitcher does not raise; it keeps the mesh, the
  vertex buffer and the mapping, and every edge it appends has both indices in range.
\<close>

lemma stitch_polygon_step:
  assumes inv: "\<forall>v\<in>ran (ed_xsect f). v < length (verts f)"
  shows "\<exists>f'. stitch_polygon p f = Inr f'
          \<and> mesh f' = mesh f \<and> verts f' = verts f \<and> ed_xsect f' = ed_xsect f
          \<and> (f' = f \<or> (\<exists>a b. f' = f\<lparr>edges := edges f @ [(a, b)]\<rparr>
                              \<and> a < length (verts f) \<and> b < length (verts f)))"
proof -
  define ps where "ps = mapped_points (ed_xsect f) (edge_keys p)"
  have rng: "\<forall>i\<in>set ps. i < length (verts f)"
    using inv mapped_points_ran [of "ed_xsect f" "edge_keys p"] unfolding ps_def by blast
  consider "length ps < 2" | "length ps = 2" | "length ps > 2" by linarith
  then show ?thesis
  proof cases
    case 1
    then show ?thesis by (simp add: stitch_polygon_def Let_def ps_def [symmetric])
  next
    case 2
    then have "ps ! 0 \<in> set ps" "ps ! 1 \<in> set ps" by simp_all
    with rng have b: "ps ! 0 < length (verts f)" "ps ! 1 < length (verts f)" by blast+
    from 2 have "stitch_polygon p f = Inr (f\<lparr>edges := edges f @ [(ps ! 0, ps ! 1)]\<rparr>)"
      by (simp add: stitch_polygon_def Let_def ps_def [symmetric])
    with b show ?thesis by force
  next
    case 3
    show ?thesis
    proof (cases "card ((\<lambda>i. tuple (verts f ! i)) ` set ps) = 2")
      case True
      with stitch_polygon_unique_cases [OF ps_def refl rng] 3 obtain a b where
        "stitch_polygon p f = Inr (f\<lparr>edges := edges f @ [(a, b)]\<rparr>)"
        "a \<in> set ps" "b \<in> set ps" by blast
      with rng show ?thesis by force
    next
      case False
      with stitch_polygon_unique_cases [OF ps_def refl rng] 3
      have "stitch_polygon p f = Inr f" by blast
      then show ?thesis by simp
    qed
  qed
qed

lemma stitch_polygons_steps:
  assumes inv: "\<forall>v\<in>ran (ed_xsect f). v < length (verts f)"
      and old: "\<forall>e\<in>set (edges f). fst e < length (verts f) \<and> snd e < length (verts f)"
  shows "\<exists>f'. stitch_polygons polys f = Inr f'
          \<and> mesh f' = mesh f \<and> verts f' = verts f \<and> ed_xsect f' = ed_xsect f
          \<and> (\<forall>e\<in>set (edges f'). fst e < length (verts f') \<and> snd e < length (verts f'))"
  using assms
proof (induction polys arbitrary: f)
  case Nil
  then show ?case by simp
next
  case (Cons p polys)
  from stitch_polygon_step [OF Cons.prems(1), of p] obtain f1 where
    s1: "stitch_polygon p f = Inr f1" and
    keep: "mesh f1 = mesh f" "verts f1 = verts f" "ed_xsect f1 = ed_xsect f" and
    new: "f1 = f \<or> (\<exists>a b. f1 = f\<lparr>edges := edges f @ [(a, b)]\<rparr>
                              \<and> a < length (verts f) \<and> b < length (verts f))"
    by blast
  have inv1: "\<forall>v\<in>ran (ed_xsect f1). v < length (verts f1)"
    using Cons.prems(1) keep by simp
  have old1: "\<forall>e\<in>set (edges f1). fst e < length (verts f1) \<and> snd e < length (verts f1)"
  proof
    fix e assume "e \<in> set (edges f1)"
    with new have "e \<in> set (edges f)
        \<or> (fst e < length (verts f) \<and> snd e < length (verts f))" by auto
    with Cons.prems(2) show "fst e < length (verts f1) \<and> snd e < length (verts f1)"
      unfolding keep by blast
  qed
  from Cons.IH [OF inv1 old1] obtain f' where
    "stitch_polygons polys f1 = Inr f'" "mesh f' = mesh f1" "verts f' = verts f1"
    "ed_xsect f' = ed_xsect f1"
    "\<forall>e\<in>set (edges f'). fst e < length (verts f') \<and> snd e < length (verts f')"
    by blast
  with s1 keep show ?case by simp
qed

lemma section_body_steps:
  assumes "section_body itM f = Inr f'"
  shows "\<exists>f1. classify_edges itM (Mesh.edges (mesh f))
                 (f\<lparr>verts := [], edges := [], ed_xsect := Map.empty\<rparr>) = Inr f1
            \<and> stitch_polygons (polygons (mesh f)) f1 = Inr f'
            \<and> mesh f1 = mesh f \<and> edges f1 = []
            \<and> (\<forall>v\<in>ran (ed_xsect f1). v < length (verts f1))"
proof -
  let ?f0 = "f\<lparr>verts := [], edges := [], ed_xsect := Map.empty\<rparr>"
  from assms obtain f1 where
    c: "classify_edges itM (Mesh.edges (mesh f)) ?f0 = Inr f1" and
    s: "stitch_polygons (polygons (mesh f1)) f1 = Inr f'"
    by (auto simp: section_body_def Let_def split: sum.splits)
  from classify_edges_frame [OF c] have m: "mesh f1 = mesh f" and e: "edges f1 = []" by simp_all
  have "\<forall>v\<in>ran (ed_xsect ?f0). v < length (verts ?f0)" by simp
  with c have "\<forall>v\<in>ran (ed_xsect f1). v < length (verts f1)" by (rule classify_edges_in_range)
  with c s m e show ?thesis by auto
qed

lemma section_body_in_range:
  assumes "section_body itM f = Inr f'"
  shows "\<forall>e\<in>set (edges f'). fst e < length (verts f') \<and> snd e < length (verts f')"
proof -
  from section_body_steps [OF assms] obtain f1 where
    s: "stitch_polygons (polygons (mesh f)) f1 = Inr f'" and m: "mesh f1 = mesh f"
    and e: "edges f1 = []" and inv: "\<forall>v\<in>ran (ed_xsect f1). v < length (verts f1)"
    by blast
  from e have "\<forall>e\<in>set (edges f1). fst e < length (verts f1) \<and> snd e < length (verts f1)" by simp
  from stitch_polygons_steps [OF inv this, of "polygons (mesh f)"] s
  show ?thesis by auto
qed

text \<open>
  When the endpoint indices of every edge are in range, lines 122 to 168 finish without
  raising.
\<close>

lemma section_body_total:
  assumes "\<forall>ed\<in>set (Mesh.edges (mesh f)).
             fst (MeshEdge.vertices ed) < length (Mesh.vertices (mesh f))
           \<and> snd (MeshEdge.vertices ed) < length (Mesh.vertices (mesh f))"
  shows "\<exists>f'. section_body itM f = Inr f'"
proof -
  let ?f0 = "f\<lparr>verts := [], edges := [], ed_xsect := Map.empty\<rparr>"
  from assms have "\<forall>ed\<in>set (Mesh.edges (mesh f)).
             fst (MeshEdge.vertices ed) < length (Mesh.vertices (mesh ?f0))
           \<and> snd (MeshEdge.vertices ed) < length (Mesh.vertices (mesh ?f0))" by simp
  from classify_edges_total [OF this] obtain f1 where
    c: "classify_edges itM (Mesh.edges (mesh f)) ?f0 = Inr f1" by blast
  have "\<forall>v\<in>ran (ed_xsect ?f0). v < length (verts ?f0)" by simp
  with c have inv: "\<forall>v\<in>ran (ed_xsect f1). v < length (verts f1)" by (rule classify_edges_in_range)
  from classify_edges_frame [OF c] have "edges f1 = []" by simp
  then have "\<forall>e\<in>set (edges f1). fst e < length (verts f1) \<and> snd e < length (verts f1)" by simp
  from stitch_polygons_steps [OF inv this] obtain f' where
    "stitch_polygons (polygons (mesh f1)) f1 = Inr f'" by blast
  with c show ?thesis by (simp add: section_body_def Let_def)
qed

section \<open>Properties of the whole function\<close>

text \<open>
  Claim C7. Whenever lines 122 to 168 finish, \<^verbatim>\<open>section\<close> returns \<^verbatim>\<open>False\<close> if
  the edge buffer is empty and the assembled object if it is not, whatever the vertex
  buffer holds; and there is a mesh for which the vertex buffer is not empty while the
  edge buffer is.
\<close>

theorem section_fn_no_intersection:
  "(\<forall>assemble itM FILL f f'. section_body itM f = Inr f' \<longrightarrow>
      (edges f' = [] \<longrightarrow> section_fn assemble itM FILL f = Inr NoSection)
    \<and> (edges f' \<noteq> [] \<longrightarrow>
         section_fn assemble itM FILL f = Inr (Section (assemble (verts f') (edges f') FILL))
       \<and> section_fn assemble itM FILL f \<noteq> Inr NoSection))
   \<and> (\<exists>itM f f'. section_body itM f = Inr f' \<and> verts f' \<noteq> [] \<and> edges f' = [])"
proof (intro conjI allI impI)
  fix assemble :: "Vector list \<Rightarrow> (nat \<times> nat) list \<Rightarrow> bool \<Rightarrow> 'a"
  fix itM FILL f f'
  assume run: "section_body itM f = Inr f'"
  {
    assume "edges f' = []"
    with run show "section_fn assemble itM FILL f = Inr NoSection"
      by (simp add: section_fn_def)
  next
    assume ne: "edges f' \<noteq> []"
    with run show "section_fn assemble itM FILL f
                     = Inr (Section (assemble (verts f') (edges f') FILL))"
      by (simp add: section_fn_def)
    from run ne show "section_fn assemble itM FILL f \<noteq> Inr NoSection"
      by (simp add: section_fn_def)
  }
next
  let ?F = "\<lparr>mesh = segment_mesh (Vector 0 0 1) (Vector 2 0 (- 3)),
            verts = [Vector (1 / 2) 0 0], edges = [], ed_xsect = [(0, 1) \<mapsto> 0]\<rparr>"
  have "section_body (\<lambda>v. v) (empty_frame (segment_mesh (Vector 0 0 1) (Vector 2 0 (- 3))))
          = Inr ?F \<and> verts ?F \<noteq> [] \<and> edges ?F = []"
    by (simp add: segment_section_body)
  then show "\<exists>itM f f'. section_body itM f = Inr f' \<and> verts f' \<noteq> [] \<and> edges f' = []"
    by blast
qed

text \<open>
  The single crossing edge with no polygon: one vertex, no edge, and the result is
  \<^verbatim>\<open>False\<close>.
\<close>

theorem section_fn_no_intersection_witness:
  "section_fn (\<lambda>vs es fill. (vs, es, fill)) (\<lambda>v. v) True
      (empty_frame (segment_mesh (Vector 0 0 1) (Vector 2 0 (- 3)))) = Inr NoSection"
proof -
  let ?F = "\<lparr>mesh = segment_mesh (Vector 0 0 1) (Vector 2 0 (- 3)),
            verts = [Vector (1 / 2) 0 0], edges = [], ed_xsect = [(0, 1) \<mapsto> 0]\<rparr>"
  have run: "section_body (\<lambda>v. v) (empty_frame (segment_mesh (Vector 0 0 1) (Vector 2 0 (- 3))))
          = Inr ?F"
    by (rule segment_section_body)
  have none: "edges ?F = []" by simp
  from section_fn_no_intersection run none show ?thesis by blast
qed

text \<open>
  Claim C8. Lines 122 to 168 leave the mesh as it was: the frame they return holds the
  mesh of the frame they were given, with its vertices, its edges and its polygons. The
  calls into the host after line 170 act on the new object and are not part of this
  statement.
\<close>

theorem section_body_mesh_unchanged:
  assumes "section_body itM f = Inr f'"
  shows "mesh f' = mesh f
       \<and> Mesh.vertices (mesh f') = Mesh.vertices (mesh f)
       \<and> Mesh.edges (mesh f') = Mesh.edges (mesh f)
       \<and> polygons (mesh f') = polygons (mesh f)"
proof -
  from section_body_steps [OF assms] obtain f1 where
    s: "stitch_polygons (polygons (mesh f)) f1 = Inr f'" and m: "mesh f1 = mesh f"
    and e: "edges f1 = []" and inv: "\<forall>v\<in>ran (ed_xsect f1). v < length (verts f1)"
    by blast
  from e have "\<forall>e\<in>set (edges f1). fst e < length (verts f1) \<and> snd e < length (verts f1)" by simp
  from stitch_polygons_steps [OF inv this, of "polygons (mesh f)"] s m
  show ?thesis by auto
qed

theorem section_body_mesh_unchanged_witness:
  "section_body (\<lambda>v. v) (empty_frame crossing_triangle)
     = Inr (crossing_classified\<lparr>edges := [(0, 1)]\<rparr>)
   \<and> mesh (crossing_classified\<lparr>edges := [(0, 1)]\<rparr>) = mesh (empty_frame crossing_triangle)"
proof -
  have run: "section_body (\<lambda>v. v) (empty_frame crossing_triangle)
               = Inr (crossing_classified\<lparr>edges := [(0, 1)]\<rparr>)"
    by (rule crossing_section_body)
  from section_body_mesh_unchanged [OF run]
  have "mesh (crossing_classified\<lparr>edges := [(0, 1)]\<rparr>) = mesh (empty_frame crossing_triangle)"
    by (rule conjunct1)
  with run show ?thesis by (rule conjI)
qed

text \<open>
  Claim C10. Every edge that lines 122 to 168 produce has both indices below the length
  of the vertex buffer; and there is a mesh whose result has an edge and a vertex that
  no edge names.
\<close>

theorem section_body_edges_in_range:
  "(\<forall>itM f f'. section_body itM f = Inr f' \<longrightarrow>
      (\<forall>e\<in>set (edges f'). fst e < length (verts f') \<and> snd e < length (verts f')))
   \<and> (\<exists>itM f f' i. section_body itM f = Inr f' \<and> edges f' \<noteq> [] \<and> i < length (verts f')
         \<and> (\<forall>e\<in>set (edges f'). fst e \<noteq> i \<and> snd e \<noteq> i))"
proof (intro conjI allI impI)
  fix itM f f'
  assume "section_body itM f = Inr f'"
  then show "\<forall>e\<in>set (edges f'). fst e < length (verts f') \<and> snd e < length (verts f')"
    by (rule section_body_in_range)
next
  let ?F = "touching_classified\<lparr>edges := [(2, 1)]\<rparr>"
  have "section_body (\<lambda>v. v) (empty_frame touching_triangle) = Inr ?F
      \<and> edges ?F \<noteq> [] \<and> 0 < length (verts ?F)
      \<and> (\<forall>e\<in>set (edges ?F). fst e \<noteq> 0 \<and> snd e \<noteq> 0)"
    by (simp add: touching_section_body touching_classified_def)
  then show "\<exists>itM f f' i. section_body itM f = Inr f' \<and> edges f' \<noteq> [] \<and> i < length (verts f')
         \<and> (\<forall>e\<in>set (edges f'). fst e \<noteq> i \<and> snd e \<noteq> i)"
    by blast
qed

text \<open>
  The result for \<open>touching_triangle\<close> has three vertices and the one edge \<open>(2, 1)\<close>;
  both indices are below \<open>3\<close>.
\<close>

theorem section_body_edges_in_range_witness:
  "fst (2::nat, 1::nat) < length (verts (touching_classified\<lparr>edges := [(2, 1)]\<rparr>))
   \<and> snd (2::nat, 1::nat) < length (verts (touching_classified\<lparr>edges := [(2, 1)]\<rparr>))"
proof -
  have run: "section_body (\<lambda>v. v) (empty_frame touching_triangle)
               = Inr (touching_classified\<lparr>edges := [(2, 1)]\<rparr>)"
    by (rule touching_section_body)
  have mem: "(2, 1) \<in> set (edges (touching_classified\<lparr>edges := [(2, 1)]\<rparr>))"
    by simp
  from section_body_edges_in_range run mem show ?thesis by blast
qed

end
